theory Spec2Isabelle
  imports Complex_Main "HOL-Library.Sublist"
begin

section \<open>Data model\<close>

text \<open>
  The orchestration engine of the text evaluator: \<^verbatim>\<open>app/services/evaluation_service.py\<close>,
  \<^verbatim>\<open>app/services/base_evaluator.py\<close> and the context-free heuristics of
  \<^verbatim>\<open>app/services/hallucination_evaluator.py\<close>.

  A Python float is a finite number, an infinity or NaN; arithmetic on finite numbers is
  exact (no rounding of intermediate results, no overflow), so the properties proved are
  those that do not hang on the last bits of a double. Python strings are \<open>string\<close>, a
  \<^verbatim>\<open>dict\<close> is an association list in insertion order, and a raised exception is the
  \<open>Inl\<close> branch of a sum. Model inference inside the individual evaluators is a
  parameter of the model.
\<close>

type_synonym kind = string

text \<open>
  An exception object, with Python's \<^verbatim>\<open>str(e)\<close>, which may be the empty string:
  an instance of \<^verbatim>\<open>Exception\<close>, or an instance of \<^verbatim>\<open>BaseException\<close> outside
  \<^verbatim>\<open>Exception\<close> (\<^verbatim>\<open>CancelledError\<close>, \<^verbatim>\<open>GeneratorExit\<close>), for which
  \<^verbatim>\<open>isinstance(e, Exception)\<close> is false and which \<^verbatim>\<open>asyncio.gather\<close> collects like
  any other. \<^verbatim>\<open>KeyboardInterrupt\<close> and \<^verbatim>\<open>SystemExit\<close>, which the event loop lets
  through, are not modelled.
\<close>

datatype exn = Exception string | OtherBaseException string

fun str :: "exn \<Rightarrow> string" where
  "str (Exception msg) = msg"
| "str (OtherBaseException msg) = msg"

fun is_exception :: "exn \<Rightarrow> bool" where
  "is_exception (Exception msg) = True"
| "is_exception (OtherBaseException msg) = False"

text \<open>
  What a call of the service raises: an exception of a model load, passed on, or the
  \<^verbatim>\<open>TypeError\<close> of the test \<^verbatim>\<open>"score" in result\<close> on a result that is not a dictionary.
\<close>

datatype error = Raised exn | TypeError

datatype pyfloat = Num real | PosInf | NegInf | NaN

text \<open>The comparison \<^verbatim>\<open>a < b\<close> of floats: false as soon as one side is NaN.\<close>

fun py_lt :: "pyfloat \<Rightarrow> pyfloat \<Rightarrow> bool" where
  "py_lt (Num a) (Num b) = (a < b)"
| "py_lt (Num a) PosInf = True"
| "py_lt NegInf (Num b) = True"
| "py_lt NegInf PosInf = True"
| "py_lt a b = False"

text \<open>
  \<^verbatim>\<open>max(a, b)\<close> and \<^verbatim>\<open>min(a, b)\<close>: the first argument, unless the second is greater
  (smaller).
\<close>

definition py_max :: "pyfloat \<Rightarrow> pyfloat \<Rightarrow> pyfloat" where
  "py_max a b = (if py_lt a b then b else a)"

definition py_min :: "pyfloat \<Rightarrow> pyfloat \<Rightarrow> pyfloat" where
  "py_min a b = (if py_lt b a then b else a)"

fun fneg :: "pyfloat \<Rightarrow> pyfloat" where
  "fneg (Num a) = Num (- a)"
| "fneg PosInf = NegInf"
| "fneg NegInf = PosInf"
| "fneg NaN = NaN"

fun fadd :: "pyfloat \<Rightarrow> pyfloat \<Rightarrow> pyfloat" where
  "fadd (Num a) (Num b) = Num (a + b)"
| "fadd NaN b = NaN"
| "fadd a NaN = NaN"
| "fadd PosInf NegInf = NaN"
| "fadd NegInf PosInf = NaN"
| "fadd PosInf b = PosInf"
| "fadd a PosInf = PosInf"
| "fadd NegInf b = NegInf"
| "fadd a NegInf = NegInf"

definition fsub :: "pyfloat \<Rightarrow> pyfloat \<Rightarrow> pyfloat" where
  "fsub a b = fadd a (fneg b)"

fun fmul :: "pyfloat \<Rightarrow> pyfloat \<Rightarrow> pyfloat" where
  "fmul (Num a) (Num b) = Num (a * b)"
| "fmul NaN b = NaN"
| "fmul a NaN = NaN"
| "fmul (Num a) b = (if a = 0 then NaN else if 0 < a then b else fneg b)"
| "fmul a (Num b) = (if b = 0 then NaN else if 0 < b then a else fneg a)"
| "fmul PosInf b = b"
| "fmul NegInf b = fneg b"

text \<open>
  \<^verbatim>\<open>a / w\<close> for a finite divisor other than zero (the one division of the service is
  under the guard \<^verbatim>\<open>total_weight > 0\<close>).
\<close>

fun fdiv :: "pyfloat \<Rightarrow> real \<Rightarrow> pyfloat" where
  "fdiv (Num a) w = Num (a / w)"
| "fdiv NaN w = NaN"
| "fdiv PosInf w = (if 0 < w then PosInf else NegInf)"
| "fdiv NegInf w = (if 0 < w then NegInf else PosInf)"

text \<open>
  The dictionary an evaluator returns, read through the keys the service looks at:
  \<open>score = None\<close> stands for a dictionary without the key \<^verbatim>\<open>"score"\<close>, \<open>error = None\<close>
  for one without the key \<^verbatim>\<open>"error"\<close>.
\<close>

record outcome =
  score :: "pyfloat option"
  error :: "string option"
  evaluation_type :: string

text \<open>
  A value of \<^verbatim>\<open>evaluation_results\<close>: a dictionary, or the exception object of a task,
  stored as it is.
\<close>

datatype entry = Dict outcome | Obj exn

text \<open>\<^verbatim>\<open>d[k] = v\<close> on a dictionary: an existing key keeps its place, a new key goes last.\<close>

fun dict_set :: "('k \<times> 'v) list \<Rightarrow> 'k \<Rightarrow> 'v \<Rightarrow> ('k \<times> 'v) list" where
  "dict_set [] k v = [(k, v)]"
| "dict_set ((k', v') # d) k v = (if k' = k then (k, v) # d else (k', v') # dict_set d k v)"

section \<open>Score aggregation\<close>

text \<open>
  Python's \<^verbatim>\<open>round(x, 2)\<close>: on a finite number the nearest multiple of one hundredth, a
  tie going to the even one; an infinity or NaN is returned as it is.
\<close>

definition round_half_even :: "real \<Rightarrow> int" where
  "round_half_even y =
     (let f = \<lfloor>y\<rfloor>; d = y - of_int f
      in if d < 1 / 2 then f else if 1 / 2 < d then f + 1
         else if even f then f else f + 1)"

definition py_round2 :: "real \<Rightarrow> real" where
  "py_round2 x = of_int (round_half_even (x * 100)) / 100"

fun round2 :: "pyfloat \<Rightarrow> pyfloat" where
  "round2 (Num x) = Num (py_round2 x)"
| "round2 a = a"

definition weights :: "(kind \<times> real) list" where
  "weights = [(''toxicity'', 0.4), (''pii'', 0.3), (''bias'', 0.2), (''hallucination'', 0.1)]"

text \<open>\<^verbatim>\<open>min(max(s, 0.0), 1.0)\<close>\<close>

definition clamp01 :: "pyfloat \<Rightarrow> pyfloat" where
  "clamp01 s = py_min (py_max s (Num 0)) (Num 1)"

text \<open>
  One pass of the loop of \<^verbatim>\<open>_calculate_safety_score\<close> over an item of the results, on
  the pair of running sums \<^verbatim>\<open>(total_score, total_weight)\<close>. The test
  \<^verbatim>\<open>eval_type in weights and "score" in result\<close> raises \<^verbatim>\<open>TypeError\<close> when the kind has a
  weight and the result is an exception object.
\<close>

fun accumulate :: "kind \<times> entry \<Rightarrow> pyfloat \<times> real \<Rightarrow> error + pyfloat \<times> real" where
  "accumulate (eval_type, result) (total_score, total_weight) =
     (case map_of weights eval_type of
        None \<Rightarrow> Inr (total_score, total_weight)
      | Some w \<Rightarrow>
          (case result of
             Obj e \<Rightarrow> Inl TypeError
           | Dict d \<Rightarrow>
               (case score d of
                  None \<Rightarrow> Inr (total_score, total_weight)
                | Some s \<Rightarrow>
                    (let sc = (if eval_type \<noteq> ''hallucination''
                               then fsub (Num 1) (clamp01 s) else clamp01 s)
                     in Inr (fadd total_score (fmul sc (Num w)), total_weight + w)))))"

text \<open>The loop itself: it stops at the first item that raises.\<close>

fun accumulate_all ::
  "(kind \<times> entry) list \<Rightarrow> pyfloat \<times> real \<Rightarrow> error + pyfloat \<times> real" where
  "accumulate_all [] totals = Inr totals"
| "accumulate_all (item # items) totals =
     (case accumulate item totals of
        Inl err \<Rightarrow> Inl err
      | Inr totals' \<Rightarrow> accumulate_all items totals')"

definition calculate_safety_score :: "(kind \<times> entry) list \<Rightarrow> error + pyfloat" where
  "calculate_safety_score evaluation_results =
     (if evaluation_results = [] then Inr (Num 0)
      else
        (case accumulate_all evaluation_results (Num 0, 0) of
           Inl err \<Rightarrow> Inl err
         | Inr (total_score, total_weight) \<Rightarrow>
             (let safety_score =
                    (if 0 < total_weight then fmul (fdiv total_score total_weight) (Num 100)
                     else Num 0)
              in Inr (round2 safety_score))))"

text \<open>A normal outcome of a kind with a finite raw score, for concrete inputs.\<close>

definition scored :: "kind \<Rightarrow> real \<Rightarrow> outcome" where
  "scored k s = \<lparr>score = Some (Num s), error = None, evaluation_type = k\<rparr>"

text \<open>
  For the proofs: the clamp on a finite number, the entries that are dictionaries with a
  finite raw score (or none), and for such an entry the weight it adds to
  \<^verbatim>\<open>total_weight\<close> and the term it adds to \<^verbatim>\<open>total_score\<close>.
\<close>

definition clamp_real :: "real \<Rightarrow> real" where
  "clamp_real s = min (max s 0) 1"

fun numeric :: "kind \<times> entry \<Rightarrow> bool" where
  "numeric (k, Obj e) = False"
| "numeric (k, Dict d) = (case score d of None \<Rightarrow> True | Some (Num s) \<Rightarrow> True | Some a \<Rightarrow> False)"

fun weight_of :: "kind \<times> entry \<Rightarrow> real" where
  "weight_of (k, Obj e) = 0"
| "weight_of (k, Dict d) =
     (case map_of weights k of
        None \<Rightarrow> 0
      | Some w \<Rightarrow> (case score d of None \<Rightarrow> 0 | Some s \<Rightarrow> w))"

fun term_of :: "kind \<times> entry \<Rightarrow> real" where
  "term_of (k, Obj e) = 0"
| "term_of (k, Dict d) =
     (case map_of weights k of
        None \<Rightarrow> 0
      | Some w \<Rightarrow>
          (case score d of
             Some (Num s) \<Rightarrow>
               (if k \<noteq> ''hallucination'' then 1 - clamp_real s else clamp_real s) * w
           | _ \<Rightarrow> 0))"

text \<open>The weight of a kind, zero for a kind outside the table.\<close>

definition wt :: "kind \<Rightarrow> real" where
  "wt k = (case map_of weights k of None \<Rightarrow> 0 | Some w \<Rightarrow> w)"

section \<open>Evaluator lifecycle\<close>

text \<open>
  The state of a \<^verbatim>\<open>BaseEvaluator\<close> instance: the flag \<^verbatim>\<open>_is_initialized\<close>, and a
  counter of the executions of \<^verbatim>\<open>_load_model\<close> so far (instrumentation: the source has
  no such field; the model handle and the tokenizer the load fills in are left out). The
  abstract \<^verbatim>\<open>_load_model\<close> is a parameter: the outcome of the attempt with a given
  number, \<open>None\<close> when it returns and \<open>Some e\<close> when it raises.
\<close>

record evaluator =
  is_initialized :: bool
  loads :: nat

definition initialize :: "(nat \<Rightarrow> exn option) \<Rightarrow> evaluator \<Rightarrow> (exn + unit) \<times> evaluator" where
  "initialize load_model self =
     (if \<not> is_initialized self then
        (let self1 = self\<lparr>loads := Suc (loads self)\<rparr>
         in case load_model (loads self) of
              Some e \<Rightarrow> (Inl e, self1)
            | None \<Rightarrow> (Inr (), self1\<lparr>is_initialized := True\<rparr>))
      else (Inr (), self))"

text \<open>The state after a number of sequential calls of \<^verbatim>\<open>initialize\<close>.\<close>

fun initialize_times :: "(nat \<Rightarrow> exn option) \<Rightarrow> nat \<Rightarrow> evaluator \<Rightarrow> evaluator" where
  "initialize_times load_model 0 self = self"
| "initialize_times load_model (Suc n) self =
     initialize_times load_model n (snd (initialize load_model self))"

text \<open>A load that fails on the first attempt and succeeds afterwards, for the examples.\<close>

definition flaky_load :: "nat \<Rightarrow> exn option" where
  "flaky_load n = (if n = 0 then Some (Exception ''connection refused'') else None)"

text \<open>
  What a subclass supplies: its \<^verbatim>\<open>_load_model\<close>, and the body of its \<^verbatim>\<open>evaluate\<close> after
  the lazy initialisation (model inference, a parameter), which returns a dictionary or
  raises.
\<close>

record evaluator_impl =
  load_model :: "nat \<Rightarrow> exn option"
  body :: "string \<Rightarrow> string option \<Rightarrow> exn + outcome"

text \<open>
  \<^verbatim>\<open>evaluate\<close>, as each of the four subclasses starts it:
  \<^verbatim>\<open>if not self._is_initialized: await self.initialize()\<close>, then the body.
\<close>

definition evaluate ::
  "evaluator_impl \<Rightarrow> string \<Rightarrow> string option \<Rightarrow> evaluator \<Rightarrow> (exn + outcome) \<times> evaluator" where
  "evaluate impl text context self =
     (if \<not> is_initialized self then
        (case initialize (load_model impl) self of
           (Inl e, self') \<Rightarrow> (Inl e, self')
         | (Inr u, self') \<Rightarrow> (body impl text context, self'))
      else (body impl text context, self))"

subsection \<open>Callers that interleave\<close>






section \<open>The evaluation service\<close>

record service =
  evaluators :: "(kind \<times> evaluator) list"
  initialized :: bool

text \<open>\<^verbatim>\<open>EvaluationService.__init__\<close>\<close>

definition new_evaluator :: evaluator where
  "new_evaluator = \<lparr>is_initialized = False, loads = 0\<rparr>"

definition new_service :: service where
  "new_service =
     \<lparr>evaluators = [(''toxicity'', new_evaluator), (''pii'', new_evaluator),
                     (''bias'', new_evaluator), (''hallucination'', new_evaluator)],
      initialized = False\<rparr>"

text \<open>
  \<^verbatim>\<open>EvaluationService.initialize\<close>: \<^verbatim>\<open>asyncio.gather\<close> without
  \<^verbatim>\<open>return_exceptions\<close> over the \<^verbatim>\<open>initialize\<close> of every evaluator. The evaluators are
  separate objects, so each runs on its own state; the first exception, in the order of
  the registry, is the one raised, and the flag of the service is then left unset.
\<close>

fun first_exn :: "(exn + 'a) list \<Rightarrow> exn option" where
  "first_exn [] = None"
| "first_exn (Inl e # rs) = Some e"
| "first_exn (Inr v # rs) = first_exn rs"

definition service_initialize :: "(kind \<Rightarrow> evaluator_impl) \<Rightarrow> service \<Rightarrow> (exn + unit) \<times> service" where
  "service_initialize impls self =
     (if initialized self then (Inr (), self)
      else
        (let done = map (\<lambda>(k, ev). (k, initialize (load_model (impls k)) ev)) (evaluators self);
             self1 = self\<lparr>evaluators := map (\<lambda>(k, r). (k, snd r)) done\<rparr>
         in case first_exn (map (\<lambda>(k, r). fst r) done) of
              Some e \<Rightarrow> (Inl e, self1)
            | None \<Rightarrow> (Inr (), self1\<lparr>initialized := True\<rparr>)))"

text \<open>
  The loop that creates one task per requested kind found in the registry, together with
  \<^verbatim>\<open>asyncio.gather(*tasks, return_exceptions=True)\<close> that runs them: the tasks run to
  completion one after the other in the order of their creation, each on the current
  state of its evaluator, and the list of results has one element per task, a raised
  exception being collected as a value. A requested kind that is not in the registry
  creates no task.
\<close>

fun run_tasks ::
  "(kind \<Rightarrow> evaluator_impl) \<Rightarrow> string \<Rightarrow> string option \<Rightarrow> kind list \<Rightarrow>
   (kind \<times> evaluator) list \<Rightarrow> (exn + outcome) list \<times> (kind \<times> evaluator) list" where
  "run_tasks impls text context [] evs = ([], evs)"
| "run_tasks impls text context (eval_type # rest) evs =
     (case map_of evs eval_type of
        None \<Rightarrow> run_tasks impls text context rest evs
      | Some ev \<Rightarrow>
          (let (r, ev') =
                 (if eval_type = ''hallucination''
                  then evaluate (impls eval_type) text context ev
                  else evaluate (impls eval_type) text None ev);
               (rs, evs') = run_tasks impls text context rest (dict_set evs eval_type ev')
           in (r # rs, evs')))"

text \<open>The dictionary stored for a kind whose task raised an \<^verbatim>\<open>Exception\<close>.\<close>

definition degraded :: "kind \<Rightarrow> exn \<Rightarrow> outcome" where
  "degraded eval_type e =
     \<lparr>score = Some (Num 0), error = Some (str e), evaluation_type = eval_type\<rparr>"

text \<open>
  The loop over \<^verbatim>\<open>zip(evaluations, results)\<close> that fills \<^verbatim>\<open>evaluation_results\<close>: a result
  that is an instance of \<^verbatim>\<open>Exception\<close> is replaced by the degraded dictionary, any other
  result is stored as it is, an exception object outside \<^verbatim>\<open>Exception\<close> included.
\<close>

fun process_results ::
  "(kind \<times> (exn + outcome)) list \<Rightarrow> (kind \<times> entry) list \<Rightarrow> (kind \<times> entry) list" where
  "process_results [] evaluation_results = evaluation_results"
| "process_results ((eval_type, result) # rest) evaluation_results =
     process_results rest
       (case result of
          Inl e \<Rightarrow>
            (if is_exception e
             then dict_set evaluation_results eval_type (Dict (degraded eval_type e))
             else dict_set evaluation_results eval_type (Obj e))
        | Inr r \<Rightarrow> dict_set evaluation_results eval_type (Dict r))"

record response =
  safety_score :: pyfloat
  evaluations :: "(kind \<times> entry) list"
  response_text :: string
  response_context :: "string option"

text \<open>\<^verbatim>\<open>if not self._initialized: await self.initialize()\<close>\<close>

definition ensure_initialized :: "(kind \<Rightarrow> evaluator_impl) \<Rightarrow> service \<Rightarrow> (exn + unit) \<times> service" where
  "ensure_initialized impls self =
     (if \<not> initialized self then service_initialize impls self else (Inr (), self))"

text \<open>
  \<^verbatim>\<open>evaluate_text\<close>. The argument \<open>evaluations_arg\<close> is \<open>None\<close> for Python's \<^verbatim>\<open>None\<close>
  (the key absent from the request) and \<open>Some l\<close> for a list. An exception of the
  initialisation and the \<^verbatim>\<open>TypeError\<close> of the aggregation are raised to the caller.
\<close>

definition evaluate_text ::
  "(kind \<Rightarrow> evaluator_impl) \<Rightarrow> string \<Rightarrow> string option \<Rightarrow> kind list option \<Rightarrow> service \<Rightarrow>
   (error + response) \<times> service" where
  "evaluate_text impls text context evaluations_arg self =
     (case ensure_initialized impls self of
        (Inl e, self1) \<Rightarrow> (Inl (Raised e), self1)
      | (Inr u, self1) \<Rightarrow>
          (let evaluations =
                 (case evaluations_arg of
                    None \<Rightarrow> map fst (evaluators self1)
                  | Some l \<Rightarrow> l);
               (results, evs') = run_tasks impls text context evaluations (evaluators self1);
               evaluation_results = process_results (zip evaluations results) []
           in case calculate_safety_score evaluation_results of
                Inl err \<Rightarrow> (Inl err, self1\<lparr>evaluators := evs'\<rparr>)
              | Inr safety \<Rightarrow>
                  (Inr \<lparr>safety_score = safety, evaluations = evaluation_results,
                        response_text = text, response_context = context\<rparr>,
                   self1\<lparr>evaluators := evs'\<rparr>)))"

text \<open>
  What the task of a registered kind returns or raises on the evaluator states \<open>evs\<close>,
  \<open>None\<close> for a kind outside the registry, and the value the service stores for a result.
\<close>

definition unit_result ::
  "(kind \<Rightarrow> evaluator_impl) \<Rightarrow> string \<Rightarrow> string option \<Rightarrow> (kind \<times> evaluator) list \<Rightarrow> kind \<Rightarrow>
   (exn + outcome) option" where
  "unit_result impls text context evs k =
     map_option
       (\<lambda>ev. fst (if k = ''hallucination'' then evaluate (impls k) text context ev
                  else evaluate (impls k) text None ev))
       (map_of evs k)"

fun stored :: "kind \<Rightarrow> exn + outcome \<Rightarrow> entry" where
  "stored k (Inl e) = (if is_exception e then Dict (degraded k e) else Obj e)"
| "stored k (Inr r) = Dict r"

text \<open>
  Concrete evaluators for the examples: every load succeeds, and every body returns a
  normal outcome of its own kind with a fixed raw score, except that the body of a kind
  listed in \<open>faulty\<close> raises the exception given there.
\<close>

definition demo_score :: "kind \<Rightarrow> real" where
  "demo_score k =
     (if k = ''toxicity'' then 0.25 else if k = ''pii'' then 0.5
      else if k = ''bias'' then 0.75 else 0.1)"

definition demo_impls :: "(kind \<times> exn) list \<Rightarrow> kind \<Rightarrow> evaluator_impl" where
  "demo_impls faulty k =
     \<lparr>load_model = (\<lambda>n. None),
      body = (\<lambda>text context.
        case map_of faulty k of
          Some e \<Rightarrow> Inl e
        | None \<Rightarrow> Inr (scored k (demo_score k)))\<rparr>"

section \<open>Hallucination heuristics without context\<close>

text \<open>
  \<^verbatim>\<open>str.lower\<close> on the ASCII letters, \<^verbatim>\<open>p in t\<close> on strings, and the search for the
  pattern \<^verbatim>\<open>\d+ (percent|%)\<close>: one or more digits, a space, then one of the two words,
  starting anywhere in the text.
\<close>

definition lower_char :: "char \<Rightarrow> char" where
  "lower_char c =
     (case map_of (zip ''ABCDEFGHIJKLMNOPQRSTUVWXYZ'' ''abcdefghijklmnopqrstuvwxyz'') c of
        None \<Rightarrow> c
      | Some l \<Rightarrow> l)"

definition lower :: "string \<Rightarrow> string" where
  "lower s = map lower_char s"

fun contains :: "string \<Rightarrow> string \<Rightarrow> bool" where
  "contains [] p = (p = [])"
| "contains (c # cs) p = (prefix p (c # cs) \<or> contains cs p)"

definition is_digit :: "char \<Rightarrow> bool" where
  "is_digit c = (c \<in> set ''0123456789'')"

definition statistic_at :: "string \<Rightarrow> bool" where
  "statistic_at s =
     (let rest = dropWhile is_digit s
      in takeWhile is_digit s \<noteq> [] \<and> (prefix '' percent'' rest \<or> prefix '' %'' rest))"

fun search_statistic :: "string \<Rightarrow> bool" where
  "search_statistic [] = False"
| "search_statistic (c # cs) = (statistic_at (c # cs) \<or> search_statistic cs)"

definition vague_phrases :: "string list" where
  "vague_phrases =
     [''some people say'', ''many believe'', ''it is known'',
      ''experts agree'', ''studies show'', ''research indicates'']"

definition extreme_words :: "string list" where
  "extreme_words = [''always'', ''never'', ''everyone'', ''no one'', ''best'', ''worst'']"

record hallucination_result = outcome +
  is_hallucinated :: bool
  confidence :: real
  flags :: "string list"
  note_field :: string

definition evaluate_without_context :: "string \<Rightarrow> hallucination_result" where
  "evaluate_without_context text =
     (let (score0, flags0) = (0 :: real, [] :: string list);
          (score1, flags1) =
            (if list_ex (contains (lower text)) vague_phrases
             then (score0 + 0.3, flags0 @ [''vague_language'']) else (score0, flags0));
          (score2, flags2) =
            (if search_statistic (lower text)
             then (score1 + 0.2, flags1 @ [''unsourced_statistic'']) else (score1, flags1));
          (score3, flags3) =
            (if list_ex (contains (lower text)) extreme_words
             then (score2 + 0.2, flags2 @ [''extreme_claim'']) else (score2, flags2));
          score4 = min 1 score3
      in \<lparr>score = Some (Num score4), error = None, evaluation_type = ''hallucination'',
          is_hallucinated = (0.5 < score4), confidence = score4, flags = flags3,
          note_field = ''Evaluation without context is less reliable''\<rparr>)"

section \<open>Properties of the aggregation\<close>

subsection \<open>Rounding, clamping and the two sums\<close>

lemma weights_pos: "map_of weights k = Some w \<Longrightarrow> 0 < w"
  by (auto simp: weights_def split: if_splits)

lemma clamp_real_range: "0 \<le> clamp_real s" "clamp_real s \<le> 1"
  by (simp_all add: clamp_real_def)

lemma clamp_real_mono: "s \<le> s' \<Longrightarrow> clamp_real s \<le> clamp_real s'"
  by (simp add: clamp_real_def min_def max_def)

lemma clamp_real_id: "0 \<le> s \<Longrightarrow> s \<le> 1 \<Longrightarrow> clamp_real s = s"
  by (simp add: clamp_real_def)

lemma clamp01_Num: "clamp01 (Num s) = Num (clamp_real s)"
  by (simp add: clamp01_def clamp_real_def py_min_def py_max_def min_def max_def)

lemma clamp01_other: "clamp01 PosInf = Num 1" "clamp01 NegInf = Num 0" "clamp01 NaN = NaN"
  by (simp_all add: clamp01_def py_min_def py_max_def)

lemma accumulate_numeric:
  "numeric e \<Longrightarrow>
   accumulate e (Num ts, tw) = Inr (Num (ts + term_of e), tw + weight_of e)"
proof -
  assume n: "numeric e"
  obtain k r where e: "e = (k, r)" by (cases e)
  show ?thesis
  proof (cases r)
    case (Obj x)
    with n e show ?thesis by simp
  next
    case (Dict d)
    show ?thesis
    proof (cases "score d")
      case None
      then show ?thesis by (simp add: e Dict split: option.splits)
    next
      case (Some a)
      with n e Dict obtain s where a: "a = Num s" by (cases a) simp_all
      show ?thesis
        by (simp add: e Dict Some a clamp01_Num fsub_def Let_def split: option.splits)
    qed
  qed
qed

lemma accumulate_all_numeric:
  "list_all numeric rs \<Longrightarrow>
   accumulate_all rs (Num ts, tw) =
     Inr (Num (ts + sum_list (map term_of rs)), tw + sum_list (map weight_of rs))"
  by (induction rs arbitrary: ts tw) (simp_all add: accumulate_numeric add.assoc)

lemma weight_of_nonneg: "0 \<le> weight_of e"
proof -
  obtain k r where e: "e = (k, r)" by (cases e)
  show ?thesis
    by (cases r) (auto simp: e split: option.splits dest: weights_pos)
qed

lemma term_of_bounds: "0 \<le> term_of e" "term_of e \<le> weight_of e"
proof -
  obtain k r where e: "e = (k, r)" by (cases e)
  show "0 \<le> term_of e"
    using clamp_real_range
    by (cases r) (auto simp: e split: option.splits pyfloat.splits dest!: weights_pos)
  show "term_of e \<le> weight_of e"
    using clamp_real_range
    by (cases r)
      (auto simp: e mult_le_cancel_right1 mult_left_le_one_le
        split: option.splits pyfloat.splits dest!: weights_pos)
qed

lemma sum_terms_bounds:
  "0 \<le> sum_list (map term_of rs)" "sum_list (map term_of rs) \<le> sum_list (map weight_of rs)"
  by (induction rs) (simp_all add: term_of_bounds add_nonneg_nonneg add_mono)

lemma sum_weights_nonneg: "0 \<le> sum_list (map weight_of rs)"
  by (induction rs) (simp_all add: weight_of_nonneg)

lemma round_half_even_cases:
  "round_half_even y = \<lfloor>y\<rfloor> \<and> y - of_int \<lfloor>y\<rfloor> \<le> 1 / 2
   \<or> round_half_even y = \<lfloor>y\<rfloor> + 1 \<and> 1 / 2 \<le> y - of_int \<lfloor>y\<rfloor>"
  by (auto simp: round_half_even_def Let_def)

lemma round_half_even_lower: "y - 1 / 2 \<le> of_int (round_half_even y)"
  using round_half_even_cases [of y] by linarith

lemma round_half_even_upper: "of_int (round_half_even y) \<le> y + 1 / 2"
  using round_half_even_cases [of y] by linarith

lemma round_half_even_of_int: "round_half_even (of_int n) = n"
  by (simp add: round_half_even_def)

lemma round_half_even_mono:
  assumes "y \<le> y'" shows "round_half_even y \<le> round_half_even y'"
proof (cases "\<lfloor>y\<rfloor> = \<lfloor>y'\<rfloor>")
  case True
  with assms show ?thesis
    by (auto simp: round_half_even_def Let_def)
next
  case False
  with assms have "\<lfloor>y\<rfloor> < \<lfloor>y'\<rfloor>" by (simp add: floor_mono order.not_eq_order_implies_strict)
  moreover have "round_half_even y \<le> \<lfloor>y\<rfloor> + 1" using round_half_even_cases [of y] by linarith
  moreover have "\<lfloor>y'\<rfloor> \<le> round_half_even y'" using round_half_even_cases [of y'] by linarith
  ultimately show ?thesis by linarith
qed

lemma round_half_even_strict:
  assumes "y + 1 < y'" shows "round_half_even y < round_half_even y'"
proof -
  have "(of_int (round_half_even y) :: real) < of_int (round_half_even y')"
    using round_half_even_upper [of y] round_half_even_lower [of y'] assms by linarith
  then show ?thesis by simp
qed

lemma py_round2_mono: "x \<le> x' \<Longrightarrow> py_round2 x \<le> py_round2 x'"
  by (simp add: py_round2_def divide_right_mono round_half_even_mono)

lemma py_round2_strict: "x + 1 / 100 < x' \<Longrightarrow> py_round2 x < py_round2 x'"
  unfolding py_round2_def
  by (intro divide_strict_right_mono) (simp_all add: round_half_even_strict)

lemma py_round2_0: "py_round2 0 = 0"
  by (simp add: py_round2_def round_half_even_def)

lemma py_round2_100: "py_round2 100 = 100"
  using round_half_even_of_int [of 10000] by (simp add: py_round2_def)

lemma py_round2_range: "0 \<le> x \<Longrightarrow> x \<le> 100 \<Longrightarrow> 0 \<le> py_round2 x \<and> py_round2 x \<le> 100"
  using py_round2_mono [of 0 x] py_round2_mono [of x 100] by (simp add: py_round2_0 py_round2_100)

text \<open>On dictionaries with finite raw scores the aggregate is the rounded weighted mean.\<close>

lemma calculate_safety_score_numeric:
  assumes "list_all numeric rs"
  shows "calculate_safety_score rs =
     Inr (Num (if 0 < sum_list (map weight_of rs)
               then py_round2 (sum_list (map term_of rs) / sum_list (map weight_of rs) * 100)
               else 0))"
proof (cases "rs = []")
  case True
  then show ?thesis by (simp add: calculate_safety_score_def)
next
  case False
  then show ?thesis
    using accumulate_all_numeric [OF assms, of 0 0]
    by (simp add: calculate_safety_score_def py_round2_0)
qed

lemma ratio_range:
  assumes "0 < (w::real)" "0 \<le> t" "t \<le> w"
  shows "0 \<le> t / w * 100" "t / w * 100 \<le> 100"
  using assms by (simp_all add: divide_le_eq)

lemma safety_score_numeric_range:
  assumes "list_all numeric rs"
  shows "\<exists>x. calculate_safety_score rs = Inr (Num x) \<and> 0 \<le> x \<and> x \<le> 100
           \<and> (\<exists>n :: int. x = of_int n / 100)"
proof (cases "0 < sum_list (map weight_of rs)")
  case True
  let ?x = "py_round2 (sum_list (map term_of rs) / sum_list (map weight_of rs) * 100)"
  have "0 \<le> ?x \<and> ?x \<le> 100"
    using py_round2_range [OF ratio_range [OF True sum_terms_bounds]] .
  moreover have "\<exists>n :: int. ?x = of_int n / 100" by (auto simp: py_round2_def)
  ultimately show ?thesis using True by (simp add: calculate_safety_score_numeric [OF assms])
next
  case False
  have "(0::real) = of_int 0 / 100" by simp
  then have "\<exists>n :: int. (0::real) = of_int n / 100" by blast
  then show ?thesis using False by (simp add: calculate_safety_score_numeric [OF assms])
qed

subsection \<open>Raising one raw score\<close>

lemma weight_of_le_wt: "weight_of e \<le> wt (fst e)"
proof -
  obtain k r where e: "e = (k, r)" by (cases e)
  show ?thesis
    by (cases r) (auto simp: e wt_def split: option.splits dest: weights_pos)
qed

lemma wt_nonneg: "0 \<le> wt k"
  by (auto simp: wt_def split: option.splits dest: weights_pos)

lemma wt_outside: "k \<notin> {''toxicity'', ''pii'', ''bias'', ''hallucination''} \<Longrightarrow> wt k = 0"
  by (simp add: wt_def weights_def)

lemma sum_wt_kinds: "sum wt {''toxicity'', ''pii'', ''bias'', ''hallucination''} = 1"
  by (simp add: wt_def weights_def)

lemma sum_wt_le_1:
  assumes "finite S" shows "sum wt S \<le> 1"
proof -
  let ?K = "{''toxicity'', ''pii'', ''bias'', ''hallucination''}"
  have "sum wt S = sum wt (S \<inter> ?K)"
    using assms by (intro sum.mono_neutral_right) (auto simp: wt_outside)
  also have "\<dots> \<le> sum wt ?K"
    by (intro sum_mono2) (auto simp: wt_nonneg)
  finally show ?thesis by (simp only: sum_wt_kinds)
qed

lemma total_weight_le_1:
  assumes "distinct (map fst rs)"
  shows "sum_list (map weight_of rs) \<le> 1"
proof -
  have "sum_list (map weight_of rs) \<le> sum_list (map wt (map fst rs))"
    by (induction rs) (simp_all add: weight_of_le_wt add_mono)
  also have "\<dots> = sum wt (set (map fst rs))"
    using assms by (rule sum_list_distinct_conv_sum_set)
  also have "\<dots> \<le> 1" by (rule sum_wt_le_1) simp
  finally show ?thesis .
qed

lemma numeric_raised: "numeric (k, Dict (h\<lparr>score := Some (Num s)\<rparr>))"
  by simp

lemma weight_of_raised:
  "map_of weights k = Some w \<Longrightarrow> weight_of (k, Dict (h\<lparr>score := Some (Num s)\<rparr>)) = w"
  by simp

lemma term_of_raised:
  "map_of weights k = Some w \<Longrightarrow>
   term_of (k, Dict (h\<lparr>score := Some (Num s)\<rparr>))
     = (if k \<noteq> ''hallucination'' then 1 - clamp_real s else clamp_real s) * w"
  by simp

text \<open>
  The aggregate of a map of finite raw scores in which one weighted kind has the raw score
  \<open>s\<close>, as a function of \<open>s\<close>.
\<close>

lemma raised_unrounded:
  assumes n: "list_all numeric pre" "list_all numeric post"
    and k: "map_of weights k = Some w"
  shows "calculate_safety_score (pre @ (k, Dict (h\<lparr>score := Some (Num s)\<rparr>)) # post)
       = Inr (Num (py_round2
           ((sum_list (map term_of pre) + sum_list (map term_of post)
              + (if k \<noteq> ''hallucination'' then 1 - clamp_real s else clamp_real s) * w)
            / (sum_list (map weight_of pre) + w + sum_list (map weight_of post)) * 100)))"
    and "w \<le> sum_list (map weight_of pre) + w + sum_list (map weight_of post)"
proof -
  show W: "w \<le> sum_list (map weight_of pre) + w + sum_list (map weight_of post)"
    using sum_weights_nonneg [of pre] sum_weights_nonneg [of post] by simp
  have "0 < w" using k by (rule weights_pos)
  with W have pos: "0 < sum_list (map weight_of pre) + w + sum_list (map weight_of post)"
    by linarith
  have all: "list_all numeric (pre @ (k, Dict (h\<lparr>score := Some (Num s)\<rparr>)) # post)"
    using n by simp
  show "calculate_safety_score (pre @ (k, Dict (h\<lparr>score := Some (Num s)\<rparr>)) # post)
       = Inr (Num (py_round2
           ((sum_list (map term_of pre) + sum_list (map term_of post)
              + (if k \<noteq> ''hallucination'' then 1 - clamp_real s else clamp_real s) * w)
            / (sum_list (map weight_of pre) + w + sum_list (map weight_of post)) * 100)))"
    using pos
    by (simp add: calculate_safety_score_numeric [OF all] weight_of_raised [OF k]
        term_of_raised [OF k] add.commute add.left_commute del: term_of.simps weight_of.simps)
qed

lemma hallucination_w: "map_of weights ''hallucination'' = Some (1 / 10)"
  by (simp add: weights_def)

lemma ratio_mono:
  fixes a w t t' :: real
  assumes "0 < w" "t \<le> t'"
  shows "(a + t) / w * 100 \<le> (a + t') / w * 100"
  using assms by (simp add: divide_right_mono)

lemma hallucination_monotone:
  assumes n: "list_all numeric pre" "list_all numeric post" and le: "s \<le> s'"
  shows "\<exists>x x'.
      calculate_safety_score (pre @ (''hallucination'', Dict (h\<lparr>score := Some (Num s)\<rparr>)) # post)
        = Inr (Num x)
    \<and> calculate_safety_score (pre @ (''hallucination'', Dict (h\<lparr>score := Some (Num s')\<rparr>)) # post)
        = Inr (Num x')
    \<and> x \<le> x'"
proof -
  let ?W = "sum_list (map weight_of pre) + 1 / 10 + sum_list (map weight_of post)"
  have W: "0 < ?W" using raised_unrounded(2) [OF n hallucination_w] by linarith
  have "clamp_real s * (1 / 10) \<le> clamp_real s' * (1 / 10)"
    using clamp_real_mono [OF le] by simp
  from ratio_mono [OF W this] show ?thesis
    by (simp only: raised_unrounded(1) [OF n hallucination_w] if_False simp_thms
        sum.inject pyfloat.inject ex_simps py_round2_mono)
qed

lemma inverted_kind_antitone:
  assumes n: "list_all numeric pre" "list_all numeric post"
    and k: "map_of weights k = Some w" "k \<noteq> ''hallucination''" and le: "s \<le> s'"
  shows "\<exists>x x'.
      calculate_safety_score (pre @ (k, Dict (h\<lparr>score := Some (Num s)\<rparr>)) # post) = Inr (Num x)
    \<and> calculate_safety_score (pre @ (k, Dict (h\<lparr>score := Some (Num s')\<rparr>)) # post) = Inr (Num x')
    \<and> x' \<le> x"
proof -
  let ?W = "sum_list (map weight_of pre) + w + sum_list (map weight_of post)"
  have w: "0 < w" using k(1) by (rule weights_pos)
  have W: "0 < ?W" using raised_unrounded(2) [OF n k(1)] w by linarith
  have "(1 - clamp_real s') * w \<le> (1 - clamp_real s) * w"
    using w clamp_real_mono [OF le] by simp
  from ratio_mono [OF W this] show ?thesis
    using k(2)
    by (simp only: raised_unrounded(1) [OF n k(1)] if_True simp_thms
        sum.inject pyfloat.inject ex_simps py_round2_mono)
qed

lemma div_unit_ge:
  fixes w x :: real
  assumes "0 < w" "w \<le> 1" "0 \<le> x"
  shows "x \<le> x / w"
  using assms by (simp add: le_divide_eq mult_left_le)

lemma ratio_gap:
  fixes a w t t' :: real
  assumes "0 < w"
  shows "(a + t') / w * 100 = (a + t) / w * 100 + (t' - t) * 100 / w"
  using assms by (simp add: field_simps)

lemma hallucination_strict_instance:
  assumes n: "list_all numeric pre" "list_all numeric post"
    and d: "distinct (map fst (pre @ (''hallucination'', Dict h) # post))"
  shows "\<exists>x x'.
      calculate_safety_score
        (pre @ (''hallucination'', Dict (h\<lparr>score := Some (Num (1 / 10))\<rparr>)) # post) = Inr (Num x)
    \<and> calculate_safety_score
        (pre @ (''hallucination'', Dict (h\<lparr>score := Some (Num (9 / 10))\<rparr>)) # post) = Inr (Num x')
    \<and> x < x'"
proof -
  let ?W = "sum_list (map weight_of pre) + 1 / 10 + sum_list (map weight_of post)"
  let ?A = "sum_list (map term_of pre) + sum_list (map term_of post)"
  have W: "0 < ?W" using raised_unrounded(2) [OF n hallucination_w] by linarith
  have "sum_list (map weight_of
          (pre @ (''hallucination'', Dict (h\<lparr>score := Some (Num 0)\<rparr>)) # post)) \<le> 1"
    using d by (intro total_weight_le_1) simp
  then have W1: "?W \<le> 1" by (simp add: weight_of_raised [OF hallucination_w] del: weight_of.simps)
  have c: "clamp_real (1 / 10) = 1 / 10" "clamp_real (9 / 10) = 9 / 10"
    by (simp_all add: clamp_real_def)
  have "(8 :: real) \<le> 8 / ?W" using W W1 by (intro div_unit_ge) simp_all
  then have "(?A + 1 / 10 * (1 / 10)) / ?W * 100 + 1 / 100
      < (?A + 9 / 10 * (1 / 10)) / ?W * 100"
    using ratio_gap [OF W, of ?A "9 / 10 * (1 / 10)" "1 / 10 * (1 / 10)"] by simp
  from py_round2_strict [OF this] show ?thesis
    by (simp only: raised_unrounded(1) [OF n hallucination_w] if_False simp_thms c
        sum.inject pyfloat.inject ex_simps)
qed

subsection \<open>Fusion on the documented example\<close>

text \<open>
  C2 (as amended). With the raw scores toxicity 0.2, pii 0, bias 0, hallucination 0 and
  the full weight table the aggregator returns 82.0, that is
  ((0.8*0.4) + (1.0*0.3) + (1.0*0.2) + (0.0*0.1)) / 1.0 * 100.
\<close>

theorem fusion_example_82:
  "calculate_safety_score
     [(''toxicity'', Dict (scored ''toxicity'' 0.2)), (''pii'', Dict (scored ''pii'' 0)),
      (''bias'', Dict (scored ''bias'' 0)),
      (''hallucination'', Dict (scored ''hallucination'' 0))] = Inr (Num 82)"
  by (simp add: calculate_safety_score_def weights_def clamp01_Num clamp_real_def fsub_def
      scored_def py_round2_def round_half_even_def)

text \<open>The value 92.0 of the claim is not what the aggregator returns on that input.\<close>

theorem fusion_example_not_92:
  "calculate_safety_score
     [(''toxicity'', Dict (scored ''toxicity'' 0.2)), (''pii'', Dict (scored ''pii'' 0)),
      (''bias'', Dict (scored ''bias'' 0)),
      (''hallucination'', Dict (scored ''hallucination'' 0))] \<noteq> Inr (Num 92)"
  by (simp add: calculate_safety_score_def weights_def clamp01_Num clamp_real_def fsub_def
      scored_def py_round2_def round_half_even_def)

subsection \<open>Monotonicity, degraded outcomes and range\<close>

text \<open>
  C3 (as amended). Take an outcome map with a hallucination entry, all of whose other
  entries are dictionaries with finite raw scores. A larger raw hallucination score never
  gives a smaller safety score, the other entries fixed; the raise from 0.1 to 0.9 gives a
  strictly larger one; and a larger raw score of any other weighted kind never gives a
  larger safety score. A small raise can vanish in the rounding to two decimals.
\<close>

theorem hallucination_not_inverted:
  assumes "list_all numeric pre" and "list_all numeric post"
  shows
   "(s \<le> s' \<longrightarrow>
      (\<exists>x x'.
         calculate_safety_score
           (pre @ (''hallucination'', Dict (h\<lparr>score := Some (Num s)\<rparr>)) # post) = Inr (Num x)
       \<and> calculate_safety_score
           (pre @ (''hallucination'', Dict (h\<lparr>score := Some (Num s')\<rparr>)) # post) = Inr (Num x')
       \<and> x \<le> x'))
    \<and> (distinct (map fst (pre @ (''hallucination'', Dict h) # post)) \<longrightarrow>
      (\<exists>x x'.
         calculate_safety_score
           (pre @ (''hallucination'', Dict (h\<lparr>score := Some (Num (1 / 10))\<rparr>)) # post)
           = Inr (Num x)
       \<and> calculate_safety_score
           (pre @ (''hallucination'', Dict (h\<lparr>score := Some (Num (9 / 10))\<rparr>)) # post)
           = Inr (Num x')
       \<and> x < x'))
    \<and> (map_of weights k = Some w \<and> k \<noteq> ''hallucination'' \<and> s \<le> s' \<longrightarrow>
      (\<exists>x x'.
         calculate_safety_score (pre @ (k, Dict (h\<lparr>score := Some (Num s)\<rparr>)) # post)
           = Inr (Num x)
       \<and> calculate_safety_score (pre @ (k, Dict (h\<lparr>score := Some (Num s')\<rparr>)) # post)
           = Inr (Num x')
       \<and> x' \<le> x))"
  using hallucination_monotone [OF assms, of s s' h]
    hallucination_strict_instance [OF assms, of h]
    inverted_kind_antitone [OF assms, of k w s s' h]
  by blast

theorem hallucination_not_inverted_witness:
  "calculate_safety_score
     [(''toxicity'', Dict (scored ''toxicity'' 0.2)), (''pii'', Dict (scored ''pii'' 0)),
      (''bias'', Dict (scored ''bias'' 0)),
      (''hallucination'', Dict (scored ''hallucination'' 0.1))] = Inr (Num 83)
   \<and> calculate_safety_score
     [(''toxicity'', Dict (scored ''toxicity'' 0.2)), (''pii'', Dict (scored ''pii'' 0)),
      (''bias'', Dict (scored ''bias'' 0)),
      (''hallucination'', Dict (scored ''hallucination'' 0.9))] = Inr (Num 91)
   \<and> (83 :: real) < 91"
proof -
  let ?pre = "[(''toxicity'', Dict (scored ''toxicity'' 0.2)), (''pii'', Dict (scored ''pii'' 0)),
      (''bias'', Dict (scored ''bias'' 0))]"
  let ?h = "scored ''hallucination'' 0"
  have n: "list_all numeric ?pre" "list_all numeric []" by (simp_all add: scored_def)
  have d: "distinct (map fst (?pre @ (''hallucination'', Dict ?h) # []))" by simp
  have a: "calculate_safety_score
      (?pre @ (''hallucination'', Dict (?h\<lparr>score := Some (Num (1 / 10))\<rparr>)) # []) = Inr (Num 83)"
    by (simp add: calculate_safety_score_def weights_def clamp01_Num clamp_real_def fsub_def
      scored_def py_round2_def round_half_even_def)
  have b: "calculate_safety_score
      (?pre @ (''hallucination'', Dict (?h\<lparr>score := Some (Num (9 / 10))\<rparr>)) # []) = Inr (Num 91)"
    by (simp add: calculate_safety_score_def weights_def clamp01_Num clamp_real_def fsub_def
      scored_def py_round2_def round_half_even_def)
  from hallucination_not_inverted [OF n, of 0 0 ?h "''toxicity''" 0] d
  obtain x x' where
    "calculate_safety_score
      (?pre @ (''hallucination'', Dict (?h\<lparr>score := Some (Num (1 / 10))\<rparr>)) # []) = Inr (Num x)"
    "calculate_safety_score
      (?pre @ (''hallucination'', Dict (?h\<lparr>score := Some (Num (9 / 10))\<rparr>)) # []) = Inr (Num x')"
    "x < x'"
    by blast
  then have "(83 :: real) < 91" by (simp only: a b sum.inject pyfloat.inject)
  with a b show ?thesis by (simp add: scored_def)
qed

text \<open>
  The claim as stated asks for a strict increase at every raise: from 0.5 to 0.50001,
  on a map with the hallucination entry alone, the safety score stays 50.0.
\<close>

theorem hallucination_small_raise_not_strict:
  "calculate_safety_score [(''hallucination'', Dict (scored ''hallucination'' 0.5))]
     = Inr (Num 50)
   \<and> calculate_safety_score [(''hallucination'', Dict (scored ''hallucination'' 0.50001))]
     = Inr (Num 50)"
  by (simp add: calculate_safety_score_def weights_def clamp01_Num clamp_real_def
      scored_def py_round2_def round_half_even_def)

text \<open>
  C4. A degraded outcome goes through the same step of the loop as a normal one (the
  step does not read the error): for a weighted kind other than hallucination, an outcome
  of raw score 0, and so the degraded outcome stored for a task that raised, adds the
  full weight of the kind to both sums, its normalized value being 1.
\<close>

theorem degraded_contributes_full_weight:
  assumes "map_of weights eval_type = Some w" and "eval_type \<noteq> ''hallucination''"
    and "score result = Some (Num 0)"
  shows "accumulate (eval_type, Dict result) (total_score, total_weight)
           = Inr (fadd total_score (fmul (Num 1) (Num w)), total_weight + w)
       \<and> accumulate (eval_type, Dict (degraded eval_type e)) (total_score, total_weight)
           = Inr (fadd total_score (fmul (Num 1) (Num w)), total_weight + w)
       \<and> accumulate (eval_type, Dict (result\<lparr>error := err\<rparr>)) (total_score, total_weight)
           = accumulate (eval_type, Dict result) (total_score, total_weight)"
  using assms by (simp add: degraded_def clamp01_Num clamp_real_def fsub_def)

theorem degraded_contributes_full_weight_witness:
  "accumulate (''pii'', Dict (degraded ''pii'' (Exception ''model failed''))) (Num (1 / 2), 4 / 10)
     = Inr (Num (8 / 10), 7 / 10)
   \<and> calculate_safety_score [(''pii'', Dict (degraded ''pii'' (Exception ''model failed'')))]
     = Inr (Num 100)"
proof -
  have w: "map_of weights ''pii'' = Some (3 / 10)" by (simp add: weights_def)
  have s: "score (degraded ''pii'' (Exception ''model failed'')) = Some (Num 0)"
    by (simp add: degraded_def)
  have "accumulate (''pii'', Dict (degraded ''pii'' (Exception ''model failed''))) (Num (1 / 2), 4 / 10)
     = Inr (Num (8 / 10), 7 / 10)"
    using degraded_contributes_full_weight [OF w _ s, of "Num (1 / 2)" "4 / 10"] by simp
  moreover have "calculate_safety_score [(''pii'', Dict (degraded ''pii'' (Exception ''model failed'')))]
     = Inr (Num 100)"
    using degraded_contributes_full_weight [OF w _ s, of "Num 0" 0]
    by (simp add: calculate_safety_score_def py_round2_def round_half_even_def)
  ultimately show ?thesis by simp
qed

text \<open>
  C6. The claim asks for a safety score between 0 and 100 whatever raw score an evaluator
  supplies, the raw score being clamped into the unit interval first. The clamp
  \<^verbatim>\<open>min(max(s, 0.0), 1.0)\<close> lets NaN through, both comparisons being false: for a raw
  score NaN of a weighted kind the aggregator returns NaN, which is not a number between
  0 and 100. (On dictionaries with finite raw scores the score is in range and a whole
  number of hundredths: lemma \<open>safety_score_numeric_range\<close>.)
\<close>

theorem nan_score_not_clamped:
  "clamp01 NaN = NaN
   \<and> calculate_safety_score
       [(''hallucination'',
         Dict \<lparr>score = Some NaN, error = None, evaluation_type = ''hallucination''\<rparr>)]
     = Inr NaN
   \<and> calculate_safety_score
       [(''toxicity'', Dict (scored ''toxicity'' 0.2)),
        (''pii'', Dict \<lparr>score = Some NaN, error = None, evaluation_type = ''pii''\<rparr>)]
     = Inr NaN"
  by (simp add: calculate_safety_score_def weights_def clamp01_Num clamp_real_def fsub_def
      scored_def clamp01_other)

section \<open>Properties of the lifecycle\<close>

lemma initialize_ready: "is_initialized self \<Longrightarrow> initialize load self = (Inr (), self)"
  by (simp add: initialize_def)

lemma initialize_times_ready:
  "is_initialized self \<Longrightarrow> initialize_times load n self = self"
  by (induction n) (simp_all add: initialize_ready)

lemma initialize_success:
  assumes "initialize load self = (Inr u, self')"
  shows "is_initialized self'" and "loads self' \<le> Suc (loads self)"
  using assms by (auto simp: initialize_def Let_def split: if_splits option.splits)

lemma initialize_failure:
  assumes "\<not> is_initialized self" and "load (loads self) = Some e"
  shows "initialize load self = (Inl e, self\<lparr>loads := Suc (loads self)\<rparr>)"
  using assms by (simp add: initialize_def Let_def)

lemma initialize_loads_cold:
  "\<not> is_initialized self \<Longrightarrow> loads (snd (initialize load self)) = Suc (loads self)"
  by (simp add: initialize_def Let_def split: option.splits)

text \<open>
  C8. After a successful \<open>initialize\<close> the flag is set and every later call, whatever
  the load would do, returns at once and leaves the state, the count of loads included,
  as it is: over any number of sequential calls the load runs no more, and the successful
  call itself ran it at most once. When the load raises, the call raises the same
  exception, the flag stays unset, and the next call runs the load again.
\<close>

theorem initialize_idempotent_and_retry:
  "(initialize load self = (Inr u, self') \<longrightarrow>
      is_initialized self' \<and> loads self' \<le> Suc (loads self)
      \<and> initialize later self' = (Inr (), self')
      \<and> initialize_times later n self' = self')
   \<and> (\<not> is_initialized self \<and> load (loads self) = Some e \<longrightarrow>
      initialize load self = (Inl e, self\<lparr>loads := Suc (loads self)\<rparr>)
      \<and> \<not> is_initialized (snd (initialize load self))
      \<and> loads (snd (initialize load (snd (initialize load self))))
          = Suc (Suc (loads self)))"
proof (intro conjI impI)
  assume ok: "initialize load self = (Inr u, self')"
  show r: "is_initialized self'" and "loads self' \<le> Suc (loads self)"
    using initialize_success [OF ok] by simp_all
  show "initialize later self' = (Inr (), self')" using r by (rule initialize_ready)
  show "initialize_times later n self' = self'" using r by (rule initialize_times_ready)
next
  assume f: "\<not> is_initialized self \<and> load (loads self) = Some e"
  then have eq: "initialize load self = (Inl e, self\<lparr>loads := Suc (loads self)\<rparr>)"
    by (simp add: initialize_failure)
  show "initialize load self = (Inl e, self\<lparr>loads := Suc (loads self)\<rparr>)" by (rule eq)
  show "\<not> is_initialized (snd (initialize load self))" using f by (simp add: eq)
  show "loads (snd (initialize load (snd (initialize load self)))) = Suc (Suc (loads self))"
    using f by (simp add: eq initialize_loads_cold)
qed

theorem initialize_idempotent_and_retry_witness:
  "initialize flaky_load new_evaluator
     = (Inl (Exception ''connection refused''), \<lparr>is_initialized = False, loads = 1\<rparr>)
   \<and> initialize flaky_load \<lparr>is_initialized = False, loads = 1\<rparr>
     = (Inr (), \<lparr>is_initialized = True, loads = 2\<rparr>)
   \<and> initialize_times flaky_load 5 \<lparr>is_initialized = True, loads = 2\<rparr>
     = \<lparr>is_initialized = True, loads = 2\<rparr>"
proof -
  have a: "initialize flaky_load \<lparr>is_initialized = False, loads = 1\<rparr>
     = (Inr (), \<lparr>is_initialized = True, loads = 2\<rparr>)"
    by (simp add: initialize_def flaky_load_def)
  have "initialize_times flaky_load 5 \<lparr>is_initialized = True, loads = 2\<rparr>
     = \<lparr>is_initialized = True, loads = 2\<rparr>"
    using initialize_idempotent_and_retry
      [where load = flaky_load and self = "\<lparr>is_initialized = False, loads = 1\<rparr>"
         and u = "()" and self' = "\<lparr>is_initialized = True, loads = 2\<rparr>"
         and later = flaky_load and n = 5]
      a by simp
  moreover have "initialize flaky_load new_evaluator
     = (Inl (Exception ''connection refused''), \<lparr>is_initialized = False, loads = 1\<rparr>)"
    using initialize_idempotent_and_retry
      [where load = flaky_load and self = new_evaluator
         and e = "Exception ''connection refused''"]
    by (simp add: new_evaluator_def flaky_load_def)
  ultimately show ?thesis using a by simp
qed

subsection \<open>Callers that interleave\<close>













section \<open>Properties of the service\<close>

subsection \<open>Dictionaries\<close>

lemma map_of_dict_set: "map_of (dict_set d k v) = (map_of d)(k \<mapsto> v)"
  by (induction d) (auto simp: fun_eq_iff)

lemma keys_dict_set_present: "k \<in> fst ` set d \<Longrightarrow> map fst (dict_set d k v) = map fst d"
  by (induction d) force+

lemma registered_lookup: "k \<in> fst ` set d \<Longrightarrow> \<exists>v. map_of d k = Some v"
  by (cases "map_of d k") (simp_all add: map_of_eq_None_iff)

lemma keys_dict_set_fresh: "k \<notin> fst ` set d \<Longrightarrow> dict_set d k v = d @ [(k, v)]"
  by (induction d) auto

subsection \<open>Initialisation of the service\<close>

lemma service_initialize_keys:
  "map fst (evaluators (snd (service_initialize impls self))) = map fst (evaluators self)"
  by (auto simp: service_initialize_def Let_def split: option.splits prod.splits)

lemma ensure_initialized_keys:
  "map fst (evaluators (snd (ensure_initialized impls self))) = map fst (evaluators self)"
  by (simp add: ensure_initialized_def service_initialize_keys)

subsection \<open>Tasks and results\<close>

lemma unit_result_dict_set:
  "k' \<noteq> k \<Longrightarrow> unit_result impls text context (dict_set evs k ev) k'
     = unit_result impls text context evs k'"
  by (simp add: unit_result_def map_of_dict_set)

lemma run_tasks_registered:
  assumes "distinct ks" and "set ks \<subseteq> fst ` set evs"
  shows "map Some (fst (run_tasks impls text context ks evs))
       = map (unit_result impls text context evs) ks"
  using assms
proof (induction ks arbitrary: evs)
  case Nil
  then show ?case by simp
next
  case (Cons k ks)
  from Cons.prems obtain ev where ev: "map_of evs k = Some ev"
    using registered_lookup [of k evs] by auto
  obtain r ev' where step:
    "(if k = ''hallucination'' then evaluate (impls k) text context ev
      else evaluate (impls k) text None ev) = (r, ev')"
    by (cases "if k = ''hallucination'' then evaluate (impls k) text context ev
      else evaluate (impls k) text None ev")
  let ?evs = "dict_set evs k ev'"
  have keys: "map fst ?evs = map fst evs"
    using Cons.prems by (simp add: keys_dict_set_present)
  have "set ks \<subseteq> fst ` set ?evs"
    using Cons.prems keys by (metis list.set_map set_subset_Cons subset_trans)
  with Cons have ih: "map Some (fst (run_tasks impls text context ks ?evs))
       = map (unit_result impls text context ?evs) ks" by simp
  have same: "map (unit_result impls text context ?evs) ks
       = map (unit_result impls text context evs) ks"
    using Cons.prems by (intro map_cong refl unit_result_dict_set) auto
  have "unit_result impls text context evs k = Some r"
    using step ev by (auto simp: unit_result_def split: if_splits)
  then show ?case
    using ev step ih same by (simp add: split_beta split: if_splits)
qed

lemma run_tasks_keys:
  "map fst (snd (run_tasks impls text context ks evs)) = map fst evs"
proof (induction ks arbitrary: evs)
  case Nil
  then show ?case by simp
next
  case (Cons k ks)
  show ?case
  proof (cases "map_of evs k")
    case None
    then show ?thesis using Cons.IH by simp
  next
    case (Some ev)
    then have "k \<in> fst ` set evs" by (metis map_of_eq_None_iff option.distinct(1))
    then show ?thesis
      using Some Cons.IH by (simp add: split_beta keys_dict_set_present)
  qed
qed

lemma process_results_fresh:
  assumes "distinct (map fst xs)" and "fst ` set xs \<inter> fst ` set acc = {}"
  shows "process_results xs acc = acc @ map (\<lambda>(k, r). (k, stored k r)) xs"
  using assms
proof (induction xs arbitrary: acc)
  case Nil
  then show ?case by simp
next
  case (Cons x xs)
  obtain k r where x: "x = (k, r)" by (cases x)
  have fresh: "k \<notin> fst ` set acc" using Cons.prems x by auto
  have step: "(case r of
        Inl e \<Rightarrow> (if is_exception e then dict_set acc k (Dict (degraded k e))
                  else dict_set acc k (Obj e))
      | Inr v \<Rightarrow> dict_set acc k (Dict v))
      = acc @ [(k, stored k r)]"
    using fresh by (cases r) (simp_all add: keys_dict_set_fresh)
  have "fst ` set xs \<inter> fst ` set (acc @ [(k, stored k r)]) = {}"
    using Cons.prems x by auto
  with Cons have "process_results xs (acc @ [(k, stored k r)])
      = (acc @ [(k, stored k r)]) @ map (\<lambda>(k, r). (k, stored k r)) xs" by simp
  then show ?case using step by (simp add: x)
qed

lemma zip_results:
  "map Some rs = map f ks \<Longrightarrow>
   map (\<lambda>(k, r). (k, Some (g k r))) (zip ks rs) = map (\<lambda>k. (k, map_option (g k) (f k))) ks"
proof (induction ks arbitrary: rs)
  case Nil
  then show ?case by simp
next
  case (Cons k ks)
  then obtain r rs' where rs: "rs = r # rs'" and r: "f k = Some r"
    and rest: "map Some rs' = map f ks"
    by (cases rs) auto
  show ?case using Cons.IH [OF rest] r by (simp add: rs)
qed

lemma zip_keys: "map Some rs = map f ks \<Longrightarrow> map fst (zip ks rs) = ks"
  by (metis length_map map_fst_zip)

text \<open>
  A request of distinct registered kinds: the entries are the stored results of the tasks,
  one per kind in the order of the request, and the call returns when the aggregation
  does.
\<close>

lemma dispatch_registered:
  assumes init: "ensure_initialized impls self = (Inr u, self1)"
    and ks: "ks = (case evaluations_arg of None \<Rightarrow> map fst (evaluators self1) | Some l \<Rightarrow> l)"
    and d: "distinct ks" and reg: "set ks \<subseteq> fst ` set (evaluators self1)"
  shows "\<exists>es evs'.
      map (\<lambda>(k, v). (k, Some v)) es
          = map (\<lambda>k. (k, map_option (stored k)
                          (unit_result impls text context (evaluators self1) k))) ks
      \<and> evaluate_text impls text context evaluations_arg self
          = (case calculate_safety_score es of
               Inl err \<Rightarrow> (Inl err, self1\<lparr>evaluators := evs'\<rparr>)
             | Inr safety \<Rightarrow>
                 (Inr \<lparr>safety_score = safety, evaluations = es,
                       response_text = text, response_context = context\<rparr>,
                  self1\<lparr>evaluators := evs'\<rparr>))"
proof -
  obtain results evs' where run:
    "run_tasks impls text context ks (evaluators self1) = (results, evs')"
    by (cases "run_tasks impls text context ks (evaluators self1)")
  have res: "map Some results = map (unit_result impls text context (evaluators self1)) ks"
    using run_tasks_registered [OF d reg, of impls "text" "context"] run by simp
  have keys: "map fst (zip ks results) = ks" using res by (rule zip_keys)
  have "process_results (zip ks results) []
      = [] @ map (\<lambda>(k, r). (k, stored k r)) (zip ks results)"
    using d keys by (intro process_results_fresh) simp_all
  then have pr: "process_results (zip ks results) [] = map (\<lambda>(k, r). (k, stored k r)) (zip ks results)"
    by simp
  have "map (\<lambda>(k, v). (k, Some v)) (map (\<lambda>(k, r). (k, stored k r)) (zip ks results))
      = map (\<lambda>(k, r). (k, Some (stored k r))) (zip ks results)"
    by (simp add: split_beta)
  also have "\<dots> = map (\<lambda>k. (k, map_option (stored k)
                          (unit_result impls text context (evaluators self1) k))) ks"
    using res by (rule zip_results)
  finally have ents: "map (\<lambda>(k, v). (k, Some v)) (process_results (zip ks results) [])
      = map (\<lambda>k. (k, map_option (stored k)
                          (unit_result impls text context (evaluators self1) k))) ks"
    by (simp only: pr)
  have "evaluate_text impls text context evaluations_arg self
          = (case calculate_safety_score (process_results (zip ks results) []) of
               Inl err \<Rightarrow> (Inl err, self1\<lparr>evaluators := evs'\<rparr>)
             | Inr safety \<Rightarrow>
                 (Inr \<lparr>safety_score = safety,
                       evaluations = process_results (zip ks results) [],
                       response_text = text, response_context = context\<rparr>,
                  self1\<lparr>evaluators := evs'\<rparr>))"
    using init run unfolding ks by (simp add: evaluate_text_def Let_def)
  with ents show ?thesis by blast
qed

lemma entries_lookup:
  assumes "map (\<lambda>(k, v). (k, Some v)) es = map (\<lambda>k. (k, h k)) ks" and "k \<in> set ks"
  shows "map_option Some (map_of es k) = Some (h k)"
proof -
  have "map_of (map (\<lambda>(k, v). (k, Some v)) es) k = map_option Some (map_of es k)"
    by (induction es) auto
  moreover have "map_of (map (\<lambda>k. (k, h k)) ks) k = Some (h k)"
    using assms(2) by (induction ks) auto
  ultimately show ?thesis using assms(1) by simp
qed

lemma entries_keys:
  assumes "map (\<lambda>(k, v). (k, Some v)) es = map (\<lambda>k. (k, h k)) ks"
  shows "map fst es = ks"
proof -
  have "map fst (map (\<lambda>(k, v). (k, Some v)) es) = map fst es" by (simp add: split_beta)
  moreover have "map fst (map (\<lambda>k. (k, h k)) ks) = ks" by (simp add: comp_def)
  ultimately show "map fst es = ks" using assms(1) by metis
qed

lemma entries_member:
  assumes "map (\<lambda>(k, v). (k, Some v)) es = map (\<lambda>k. (k, h k)) ks" and "(k, v) \<in> set es"
  shows "k \<in> set ks \<and> h k = Some v"
proof -
  have "(k, Some v) \<in> set (map (\<lambda>(k, v). (k, Some v)) es)"
    using assms(2) by force
  then have "(k, Some v) \<in> set (map (\<lambda>k. (k, h k)) ks)" by (simp only: assms(1))
  then show ?thesis by auto
qed

subsection \<open>Aggregation of dictionaries\<close>

lemma accumulate_all_dicts:
  assumes "\<And>k v. (k, v) \<in> set es \<Longrightarrow> \<exists>d. v = Dict d"
  shows "\<exists>totals. accumulate_all es acc = Inr totals"
  using assms
proof (induction es arbitrary: acc)
  case Nil
  then show ?case by simp
next
  case (Cons x es)
  obtain k v where x: "x = (k, v)" by (cases x)
  obtain d where v: "v = Dict d" using Cons.prems [of k v] x by auto
  obtain ts tw where acc: "acc = (ts, tw)" by (cases acc)
  obtain acc' where step: "accumulate x acc = Inr acc'"
    by (cases "map_of weights k"; cases "score d") (auto simp: x v acc Let_def)
  have "\<exists>totals. accumulate_all es acc' = Inr totals"
    using Cons.prems by (intro Cons.IH) auto
  then show ?case using step by simp
qed

lemma calculate_safety_score_dicts:
  assumes "\<And>k v. (k, v) \<in> set es \<Longrightarrow> \<exists>d. v = Dict d"
  shows "\<exists>safety. calculate_safety_score es = Inr safety"
proof -
  obtain ts tw where "accumulate_all es (Num 0, 0) = Inr (ts, tw)"
    using accumulate_all_dicts [of es "(Num 0, 0)"] assms by fastforce
  then show ?thesis by (simp add: calculate_safety_score_def Let_def)
qed

subsection \<open>Requests of registered kinds\<close>

lemma registered_request:
  assumes init: "ensure_initialized impls self = (Inr u, self1)"
    and ks: "ks = (case evaluations_arg of None \<Rightarrow> map fst (evaluators self1) | Some l \<Rightarrow> l)"
    and d: "distinct ks" and reg: "set ks \<subseteq> fst ` set (evaluators self1)"
    and ok: "\<forall>k \<in> set ks. \<forall>m.
        unit_result impls text context (evaluators self1) k \<noteq> Some (Inl (OtherBaseException m))"
  shows "\<exists>resp self'.
      evaluate_text impls text context evaluations_arg self = (Inr resp, self')
      \<and> map fst (evaluations resp) = ks
      \<and> (\<forall>k \<in> set ks. \<forall>e.
            unit_result impls text context (evaluators self1) k = Some (Inl e) \<longrightarrow>
            map_of (evaluations resp) k = Some (Dict (degraded k e)))
      \<and> (\<forall>k \<in> set ks. \<forall>r.
            unit_result impls text context (evaluators self1) k = Some (Inr r) \<longrightarrow>
            map_of (evaluations resp) k = Some (Dict r))"
proof -
  from dispatch_registered [OF init ks d reg, of "text" "context"]
  obtain es evs' where
    ents: "map (\<lambda>(k, v). (k, Some v)) es
          = map (\<lambda>k. (k, map_option (stored k)
                          (unit_result impls text context (evaluators self1) k))) ks"
    and ev: "evaluate_text impls text context evaluations_arg self
          = (case calculate_safety_score es of
               Inl err \<Rightarrow> (Inl err, self1\<lparr>evaluators := evs'\<rparr>)
             | Inr safety \<Rightarrow>
                 (Inr \<lparr>safety_score = safety, evaluations = es,
                       response_text = text, response_context = context\<rparr>,
                  self1\<lparr>evaluators := evs'\<rparr>))"
    by blast
  have dict: "\<exists>d. v = Dict d" if "(k, v) \<in> set es" for k v
  proof -
    from entries_member [OF ents that]
    have k: "k \<in> set ks"
      and v: "map_option (stored k) (unit_result impls text context (evaluators self1) k) = Some v"
      by simp_all
    then obtain r where r: "unit_result impls text context (evaluators self1) k = Some r"
      and s: "v = stored k r" by auto
    show ?thesis
    proof (cases r)
      case (Inl e)
      with ok k r have "is_exception e" by (cases e) auto
      with s Inl show ?thesis by simp
    next
      case (Inr d)
      with s show ?thesis by simp
    qed
  qed
  obtain safety where safe: "calculate_safety_score es = Inr safety"
    using calculate_safety_score_dicts [of es] dict by blast
  let ?resp = "\<lparr>safety_score = safety, evaluations = es,
                 response_text = text, response_context = context\<rparr>"
  have ret: "evaluate_text impls text context evaluations_arg self
      = (Inr ?resp, self1\<lparr>evaluators := evs'\<rparr>)"
    using ev safe by simp
  have look: "map_option Some (map_of es k)
        = Some (map_option (stored k) (unit_result impls text context (evaluators self1) k))"
    if "k \<in> set ks" for k
    using entries_lookup [OF ents that] .
  have raised: "map_of (evaluations ?resp) k = Some (Dict (degraded k e))"
    if "k \<in> set ks" and "unit_result impls text context (evaluators self1) k = Some (Inl e)"
    for k e
  proof -
    from ok that have "is_exception e" by (cases e) auto
    then show ?thesis using look [OF that(1)] that(2) by auto
  qed
  have returned: "map_of (evaluations ?resp) k = Some (Dict r)"
    if "k \<in> set ks" and "unit_result impls text context (evaluators self1) k = Some (Inr r)"
    for k r
    using look [OF that(1)] that(2) by auto
  have "map fst (evaluations ?resp) = ks" using entries_keys [OF ents] by simp
  then show ?thesis using ret raised returned by blast
qed

text \<open>
  C5 (as amended). Once the service is initialised (before the call or by it), take a
  call that requests distinct registered kinds and in which every task either returns or
  raises an instance of \<^verbatim>\<open>Exception\<close>. The call returns normally with exactly one entry
  per requested kind, in the order of the request: for a kind whose task raised, the
  entry is the degraded dictionary of score 0, with the kind as \<open>evaluation_type\<close> and
  \<^verbatim>\<open>str\<close> of the exception as error (non-empty when that string is); for a kind whose
  task returned, the entry is what it returned, whatever the other tasks did.
\<close>

theorem failure_isolation:
  assumes "fst (ensure_initialized impls self) = Inr u"
    and "distinct kinds" and "set kinds \<subseteq> fst ` set (evaluators self)"
    and "\<forall>k \<in> set kinds. \<forall>m.
        unit_result impls text context (evaluators (snd (ensure_initialized impls self))) k
          \<noteq> Some (Inl (OtherBaseException m))"
  shows "\<exists>resp self'.
      evaluate_text impls text context (Some kinds) self = (Inr resp, self')
      \<and> map fst (evaluations resp) = kinds
      \<and> (\<forall>k \<in> set kinds. \<forall>e.
            unit_result impls text context (evaluators (snd (ensure_initialized impls self))) k
              = Some (Inl e) \<longrightarrow>
            map_of (evaluations resp) k
              = Some (Dict \<lparr>score = Some (Num 0), error = Some (str e), evaluation_type = k\<rparr>))
      \<and> (\<forall>k \<in> set kinds. \<forall>r.
            unit_result impls text context (evaluators (snd (ensure_initialized impls self))) k
              = Some (Inr r) \<longrightarrow>
            map_of (evaluations resp) k = Some (Dict r))"
proof -
  obtain self1 where init: "ensure_initialized impls self = (Inr u, self1)"
    using assms(1) by (cases "ensure_initialized impls self") auto
  have keys: "map fst (evaluators self1) = map fst (evaluators self)"
    using ensure_initialized_keys [of impls self] init by simp
  have reg: "set kinds \<subseteq> fst ` set (evaluators self1)"
    using assms(3) keys by (metis list.set_map)
  have s1: "snd (ensure_initialized impls self) = self1" using init by simp
  show ?thesis
    using registered_request [OF init _ assms(2) reg, of "Some kinds" "text" "context"]
      assms(4)
    by (simp add: s1 degraded_def)
qed

lemmas demo_simps =
  evaluate_text_def ensure_initialized_def service_initialize_def new_service_def
  new_evaluator_def initialize_def evaluate_def demo_impls_def demo_score_def scored_def
  degraded_def Let_def calculate_safety_score_def weights_def clamp01_Num clamp_real_def
  fsub_def py_round2_def round_half_even_def unit_result_def

theorem failure_isolation_witness:
  "fst (evaluate_text (demo_impls [(''pii'', Exception ''model crashed'')]) ''hi'' None
         (Some [''toxicity'', ''pii'', ''bias'']) new_service)
     = Inr \<lparr>safety_score = Num 72.22,
            evaluations =
              [(''toxicity'',
                Dict \<lparr>score = Some (Num 0.25), error = None, evaluation_type = ''toxicity''\<rparr>),
               (''pii'',
                Dict \<lparr>score = Some (Num 0), error = Some ''model crashed'',
                      evaluation_type = ''pii''\<rparr>),
               (''bias'',
                Dict \<lparr>score = Some (Num 0.75), error = None, evaluation_type = ''bias''\<rparr>)],
            response_text = ''hi'', response_context = None\<rparr>"
proof -
  let ?impls = "demo_impls [(''pii'', Exception ''model crashed'')]"
  have a: "fst (ensure_initialized ?impls new_service) = Inr ()"
    by (simp add: demo_simps)
  have b: "distinct [''toxicity'', ''pii'', ''bias'']" by simp
  have c: "set [''toxicity'', ''pii'', ''bias''] \<subseteq> fst ` set (evaluators new_service)"
    by (simp add: new_service_def)
  have d: "\<forall>k \<in> set [''toxicity'', ''pii'', ''bias'']. \<forall>m.
      unit_result ?impls ''hi'' None (evaluators (snd (ensure_initialized ?impls new_service))) k
        \<noteq> Some (Inl (OtherBaseException m))"
    by (simp add: demo_simps)
  show ?thesis
    using failure_isolation [OF a b c d]
    by (simp add: demo_simps)
qed

text \<open>
  The error of a degraded outcome is empty when \<^verbatim>\<open>str\<close> of the exception is: here the
  task of pii raises an exception without a message.
\<close>

theorem empty_error_message:
  "fst (evaluate_text (demo_impls [(''pii'', Exception '''')]) ''hi'' None
         (Some [''toxicity'', ''pii'', ''bias'']) new_service)
     = Inr \<lparr>safety_score = Num 72.22,
            evaluations =
              [(''toxicity'',
                Dict \<lparr>score = Some (Num 0.25), error = None, evaluation_type = ''toxicity''\<rparr>),
               (''pii'',
                Dict \<lparr>score = Some (Num 0), error = Some [], evaluation_type = ''pii''\<rparr>),
               (''bias'',
                Dict \<lparr>score = Some (Num 0.75), error = None, evaluation_type = ''bias''\<rparr>)],
            response_text = ''hi'', response_context = None\<rparr>"
  by (simp add: demo_simps)

text \<open>
  A task that raises outside \<^verbatim>\<open>Exception\<close> is not degraded: its exception object is
  stored as the entry, and the aggregation raises \<^verbatim>\<open>TypeError\<close> to the caller.
\<close>

lemma cancelled_task_raises_type_error:
  "fst (evaluate_text (demo_impls [(''pii'', OtherBaseException '''')]) ''hi'' None
         (Some [''toxicity'', ''pii'', ''bias'']) new_service) = Inl TypeError"
  by (simp add: demo_simps)

text \<open>
  C1. The claim asks for one entry per requested and registered kind, under its own key,
  a kind outside the registry being dropped. On the request \<^verbatim>\<open>["unknown", "toxicity"]\<close>
  the service creates the one task of toxicity and then pairs the results with the
  unfiltered request: the outcome of toxicity is stored under the key \<^verbatim>\<open>"unknown"\<close>, and
  toxicity has no entry.
\<close>

theorem unregistered_kind_miskeys:
  "fst (evaluate_text (demo_impls []) ''hi'' None (Some [''unknown'', ''toxicity'']) new_service)
     = Inr \<lparr>safety_score = Num 0,
            evaluations =
              [(''unknown'',
                Dict \<lparr>score = Some (Num 0.25), error = None, evaluation_type = ''toxicity''\<rparr>)],
            response_text = ''hi'', response_context = None\<rparr>"
  by (simp add: demo_simps)




section \<open>Properties of the heuristics\<close>

text \<open>
  C10. Without context the hallucination score is the sum of the increments of the
  heuristics that fire (0.3 for vague language, 0.2 for a percentage, 0.2 for an extreme
  word), capped at 1; it is at most 0.7; and the text is flagged as hallucinated exactly
  when the score exceeds 0.5, which is exactly when all three heuristics fire.
\<close>

theorem heuristic_score_sum:
  "score (evaluate_without_context text)
     = Some (Num (min 1 ((if list_ex (contains (lower text)) vague_phrases then 0.3 else 0)
                  + (if search_statistic (lower text) then 0.2 else 0)
                  + (if list_ex (contains (lower text)) extreme_words then 0.2 else 0))))
   \<and> (\<exists>s. score (evaluate_without_context text) = Some (Num s) \<and> 0 \<le> s \<and> s \<le> 0.7
          \<and> confidence (evaluate_without_context text) = s
          \<and> is_hallucinated (evaluate_without_context text) = (0.5 < s))
   \<and> is_hallucinated (evaluate_without_context text)
       = (list_ex (contains (lower text)) vague_phrases \<and> search_statistic (lower text)
          \<and> list_ex (contains (lower text)) extreme_words)"
  by (simp add: evaluate_without_context_def Let_def)

theorem heuristic_score_sum_witness:
  "score (evaluate_without_context ''Studies show 90 PERCENT is always right'') = Some (Num 0.7)
   \<and> is_hallucinated (evaluate_without_context ''Studies show 90 PERCENT is always right'')"
proof -
  have c: "list_ex (contains (lower ''Studies show 90 PERCENT is always right'')) vague_phrases"
    "search_statistic (lower ''Studies show 90 PERCENT is always right'')"
    "list_ex (contains (lower ''Studies show 90 PERCENT is always right'')) extreme_words"
    by code_simp+
  note th = heuristic_score_sum [of "''Studies show 90 PERCENT is always right''"]
  have "score (evaluate_without_context ''Studies show 90 PERCENT is always right'')
      = Some (Num 0.7)"
    using th [THEN conjunct1] c by simp
  moreover have "is_hallucinated (evaluate_without_context ''Studies show 90 PERCENT is always right'')"
    using th [THEN conjunct2, THEN conjunct2] c by simp
  ultimately show ?thesis by simp
qed

end
